theory Spec2Isabelle
  imports Complex_Main
begin

section \<open>Numbers\<close>

text \<open>
  The scripts compute with Python floats and with numpy \<open>float64\<close> values. A finite value
  is modelled by the real number it stands for; the three special values are kept apart.
  Zero is the positive zero. Arithmetic is exact, with two exceptions that are made
  explicit below, because a result proved here hangs on them: the float range in the
  scalar steps of \<open>calculate_eur\<close>, and the rounding of \<open>np.mean\<close> in the fit step.
\<close>

datatype np_float = Fin real | PInf | NInf | NaN

text \<open>
  The exceptions a run can end in. \<open>ZeroDivisionError\<close>, \<open>OverflowError\<close> and
  \<open>IndexError\<close> are raised by the scripts' own statements, \<open>RuntimeError\<close> and
  \<open>ValueError\<close> come out of \<open>scipy.optimize.curve_fit\<close>. \<open>NotReal\<close> is no exception:
  Python goes on with a complex number where a negative float is raised to a fractional
  power, and the real-valued model stops there. The last four are the error kinds of
  the specification; no statement of the scripts raises them.
\<close>

datatype py_error =
    ZeroDivisionError | OverflowError | IndexError | RuntimeError | ValueError | NotReal
  | DegenerateDataError | FitConvergenceError | UnboundedReserveError | InvalidParameterError

fun np_neg :: "np_float \<Rightarrow> np_float" where
  "np_neg (Fin a) = Fin (- a)"
| "np_neg PInf = NInf"
| "np_neg NInf = PInf"
| "np_neg NaN = NaN"

fun np_add :: "np_float \<Rightarrow> np_float \<Rightarrow> np_float" where
  "np_add NaN y = NaN"
| "np_add x NaN = NaN"
| "np_add (Fin a) (Fin b) = Fin (a + b)"
| "np_add PInf NInf = NaN"
| "np_add NInf PInf = NaN"
| "np_add PInf y = PInf"
| "np_add x PInf = PInf"
| "np_add NInf y = NInf"
| "np_add x NInf = NInf"

definition np_sub :: "np_float \<Rightarrow> np_float \<Rightarrow> np_float" where
  "np_sub x y = np_add x (np_neg y)"

fun np_mul :: "np_float \<Rightarrow> np_float \<Rightarrow> np_float" where
  "np_mul NaN y = NaN"
| "np_mul x NaN = NaN"
| "np_mul (Fin a) (Fin b) = Fin (a * b)"
| "np_mul (Fin a) PInf = (if a = 0 then NaN else if 0 < a then PInf else NInf)"
| "np_mul (Fin a) NInf = (if a = 0 then NaN else if 0 < a then NInf else PInf)"
| "np_mul PInf (Fin b) = (if b = 0 then NaN else if 0 < b then PInf else NInf)"
| "np_mul NInf (Fin b) = (if b = 0 then NaN else if 0 < b then NInf else PInf)"
| "np_mul PInf PInf = PInf"
| "np_mul PInf NInf = NInf"
| "np_mul NInf PInf = NInf"
| "np_mul NInf NInf = PInf"

text \<open>numpy's \<open>/\<close>: a zero divisor gives an infinity or NaN (and a warning), never an exception.\<close>

fun np_div :: "np_float \<Rightarrow> np_float \<Rightarrow> np_float" where
  "np_div NaN y = NaN"
| "np_div x NaN = NaN"
| "np_div (Fin a) (Fin b) =
     (if b = 0 then (if a = 0 then NaN else if 0 < a then PInf else NInf) else Fin (a / b))"
| "np_div (Fin a) PInf = Fin 0"
| "np_div (Fin a) NInf = Fin 0"
| "np_div PInf (Fin b) = (if 0 \<le> b then PInf else NInf)"
| "np_div NInf (Fin b) = (if 0 \<le> b then NInf else PInf)"
| "np_div PInf PInf = NaN"
| "np_div PInf NInf = NaN"
| "np_div NInf PInf = NaN"
| "np_div NInf NInf = NaN"

text \<open>
  numpy's \<open>**\<close> (C's \<open>pow\<close>), first on a finite base: anything to the power 0 is 1, 1 to
  any power is 1, a negative base needs an integral exponent. Then on any base.
\<close>

fun np_pow :: "real \<Rightarrow> np_float \<Rightarrow> np_float" where
  "np_pow a (Fin y) =
     (if y = 0 \<or> a = 1 then Fin 1
      else if 0 < a then Fin (a powr y)
      else if a = 0 then (if 0 < y then Fin 0 else PInf)
      else if y = of_int \<lfloor>y\<rfloor> then Fin (a powi \<lfloor>y\<rfloor>)
      else NaN)"
| "np_pow a PInf = (if \<bar>a\<bar> < 1 then Fin 0 else if \<bar>a\<bar> = 1 then Fin 1 else PInf)"
| "np_pow a NInf = (if \<bar>a\<bar> < 1 then PInf else if \<bar>a\<bar> = 1 then Fin 1 else Fin 0)"
| "np_pow a NaN = (if a = 1 then Fin 1 else NaN)"

definition odd_integer :: "real \<Rightarrow> bool" where
  "odd_integer y = (y = of_int \<lfloor>y\<rfloor> \<and> odd \<lfloor>y\<rfloor>)"

fun np_power :: "np_float \<Rightarrow> np_float \<Rightarrow> np_float" where
  "np_power (Fin a) e = np_pow a e"
| "np_power NaN e = (if e = Fin 0 then Fin 1 else NaN)"
| "np_power PInf (Fin y) = (if y = 0 then Fin 1 else if 0 < y then PInf else Fin 0)"
| "np_power PInf PInf = PInf"
| "np_power PInf NInf = Fin 0"
| "np_power PInf NaN = NaN"
| "np_power NInf (Fin y) =
     (if y = 0 then Fin 1
      else if 0 < y then (if odd_integer y then NInf else PInf)
      else Fin 0)"
| "np_power NInf PInf = PInf"
| "np_power NInf NInf = Fin 0"
| "np_power NInf NaN = NaN"

text \<open>Python's \<open>/\<close> on two Python numbers, as \<open>hyperbolic_decline\<close> uses it for \<open>1/b\<close>.\<close>

definition py_truediv :: "real \<Rightarrow> real \<Rightarrow> py_error + real" where
  "py_truediv a b = (if b = 0 then Inl ZeroDivisionError else Inr (a / b))"

section \<open>Decline curve functions\<close>

text \<open>
  \<open>hyperbolic_decline(t, qi, Di, b)\<close> is \<open>qi / ((1 + b * Di * t) ** (1/b))\<close>. Every call
  in the script passes a numpy array for \<open>t\<close>; the parameters are Python numbers or
  numpy scalars (the entries of \<open>curve_fit\<close>'s result are numpy scalars). Python chooses
  the division \<open>1/b\<close> by the type of \<open>b\<close>: it raises for a Python number 0 and gives
  infinity for a numpy scalar 0. The product with \<open>t\<close>, the sum, the power and the outer
  division are array operations either way.
\<close>

datatype scalar_kind = PyNumber | NpScalar

definition one_over :: "scalar_kind \<Rightarrow> real \<Rightarrow> py_error + np_float" where
  "one_over k b =
     (case k of
        PyNumber \<Rightarrow> (case py_truediv 1 b of Inl e \<Rightarrow> Inl e | Inr r \<Rightarrow> Inr (Fin r))
      | NpScalar \<Rightarrow> Inr (np_div (Fin 1) (Fin b)))"

definition hyperbolic_decline ::
  "scalar_kind \<Rightarrow> np_float list \<Rightarrow> real \<Rightarrow> real \<Rightarrow> real \<Rightarrow> py_error + np_float list" where
  "hyperbolic_decline k t qi Di b =
     (case one_over k b of
        Inl e \<Rightarrow> Inl e
      | Inr ex \<Rightarrow>
          Inr (map (\<lambda>ti. np_div (Fin qi)
                            (np_power (np_add (Fin 1) (np_mul (Fin (b * Di)) ti)) ex)) t))"

text \<open>
  \<open>np.linspace(start, stop, num)\<close>: the step is \<open>(stop - start) / (num - 1)\<close>, point \<open>i\<close>
  is \<open>i * step + start\<close>, and the last point is set to \<open>stop\<close>. (numpy computes
  \<open>i / (num - 1) * (stop - start)\<close> instead when the step is 0; in exact arithmetic that
  is the same point.) \<open>np.trapz(y, x)\<close> (and \<open>np.trapezoid\<close>, its newer name) is
  \<open>(diff(x) * (y[1:] + y[:-1]) / 2.0).sum()\<close>.
\<close>

definition linspace :: "np_float \<Rightarrow> np_float \<Rightarrow> nat \<Rightarrow> np_float list" where
  "linspace start stop num =
     (if num = 0 then []
      else if num = 1 then [start]
      else (let step = np_div (np_sub stop start) (Fin (real (num - 1)))
            in map (\<lambda>i. np_add (np_mul (Fin (real i)) step) start) [0..<num - 1] @ [stop]))"

definition np_sum :: "np_float list \<Rightarrow> np_float" where
  "np_sum xs = fold (\<lambda>x acc. np_add acc x) xs (Fin 0)"

fun trapz_terms :: "np_float list \<Rightarrow> np_float list \<Rightarrow> np_float list" where
  "trapz_terms (y0 # y1 # ys) (x0 # x1 # xs) =
     np_div (np_mul (np_sub x1 x0) (np_add y1 y0)) (Fin 2) # trapz_terms (y1 # ys) (x1 # xs)"
| "trapz_terms ys xs = []"

definition trapz :: "np_float list \<Rightarrow> np_float list \<Rightarrow> np_float" where
  "trapz y x = np_sum (trapz_terms y x)"

subsection \<open>The scalar steps of \<open>calculate_eur\<close>\<close>

text \<open>
  \<open>t_max = ((qi/economic_limit)**b - 1) / (b * Di)\<close> is computed on scalars, and which
  exception it ends in, if any, depends on the float range: a float quotient or
  product beyond the range is an infinity, silently, while Python's float \<open>**\<close> raises
  \<open>OverflowError\<close> when a finite base gives a result beyond the range. \<open>max_float\<close> is the
  largest float64. The arguments are floats, or Python integers within the float range,
  which behave as the floats of the same value here.

  For Python numbers \<open>/\<close> raises on a zero divisor, whatever the dividend, and \<open>**\<close>
  raises for 0 to a negative power; for numpy scalars neither raises.
\<close>

definition max_float :: real where
  "max_float = (2 - 1 / 2 ^ 52) * 2 ^ 1023"

fun overflow :: "np_float \<Rightarrow> np_float" where
  "overflow (Fin a) = (if max_float < a then PInf else if a < - max_float then NInf else Fin a)"
| "overflow PInf = PInf"
| "overflow NInf = NInf"
| "overflow NaN = NaN"

definition scalar_div :: "scalar_kind \<Rightarrow> np_float \<Rightarrow> np_float \<Rightarrow> py_error + np_float" where
  "scalar_div k x y =
     (if k = PyNumber \<and> y = Fin 0 then Inl ZeroDivisionError else Inr (overflow (np_div x y)))"

definition scalar_pow :: "scalar_kind \<Rightarrow> np_float \<Rightarrow> real \<Rightarrow> py_error + np_float" where
  "scalar_pow k x y =
     (case k of
        NpScalar \<Rightarrow> Inr (overflow (np_power x (Fin y)))
      | PyNumber \<Rightarrow>
          (if y = 0 then Inr (Fin 1)
           else case x of
             Fin a \<Rightarrow>
               (if a = 0 \<and> y < 0 then Inl ZeroDivisionError
                else if a < 0 \<and> y \<noteq> of_int \<lfloor>y\<rfloor> then Inl NotReal
                else if overflow (np_pow a (Fin y)) = np_pow a (Fin y) then Inr (np_pow a (Fin y))
                else Inl OverflowError)
           | PInf \<Rightarrow> Inr (np_power PInf (Fin y))
           | NInf \<Rightarrow> Inr (np_power NInf (Fin y))
           | NaN \<Rightarrow> Inr NaN))"

text \<open>\<open>calculate_eur(qi, Di, b, economic_limit=10)\<close>.\<close>

definition calculate_eur ::
  "scalar_kind \<Rightarrow> real \<Rightarrow> real \<Rightarrow> real \<Rightarrow> real \<Rightarrow> py_error + np_float" where
  "calculate_eur k qi Di b economic_limit =
     (case scalar_div k (Fin qi) (Fin economic_limit) of
        Inl e \<Rightarrow> Inl e
      | Inr ratio \<Rightarrow>
     (case scalar_pow k ratio b of
        Inl e \<Rightarrow> Inl e
      | Inr p \<Rightarrow>
     (case scalar_div k (np_sub p (Fin 1)) (overflow (Fin (b * Di))) of
        Inl e \<Rightarrow> Inl e
      | Inr t_max \<Rightarrow>
     (let time_points = linspace (Fin 0) t_max 1000 in
      case hyperbolic_decline k time_points qi Di b of
        Inl e \<Rightarrow> Inl e
      | Inr production_points \<Rightarrow> Inr (trapz production_points time_points)))))"

section \<open>The analysis run\<close>

subsection \<open>Data\<close>

text \<open>
  A calendar month is the integer pandas gives a monthly period: the number of months
  since January 1970. \<open>to_period_M\<close> is \<open>.dt.to_period('M')\<close>, \<open>to_timestamp\<close> is
  \<open>.dt.to_timestamp()\<close>, the first day of the month.
\<close>

record date =
  year :: int
  month :: int
  day :: int

definition to_period_M :: "date \<Rightarrow> int" where
  "to_period_M d = (year d - 1970) * 12 + (month d - 1)"

definition to_timestamp :: "int \<Rightarrow> date" where
  "to_timestamp p = \<lparr>year = 1970 + p div 12, month = p mod 12 + 1, day = 1\<rparr>"

text \<open>A row of the \<open>production\<close> table, as the query of step 2 loads it.\<close>

record observation =
  production_date :: date
  oil_volume :: real
  gas_volume :: real
  water_volume :: real

text \<open>
  A row of \<open>monthly\<close>. Its columns \<open>oil_volume\<close>, \<open>gas_volume\<close> and \<open>water_volume\<close> are
  named \<open>monthly_oil\<close>, \<open>monthly_gas\<close> and \<open>monthly_water\<close> here; \<open>year_month\<close> holds the
  month's number, of which the timestamp of line 111 is \<open>to_timestamp\<close>.
\<close>

record monthly_period =
  year_month :: int
  monthly_oil :: real
  monthly_gas :: real
  monthly_water :: real
  months_on_production :: nat

record forecast_point =
  forecast_date :: date
  forecast_months_on_production :: nat
  predicted_oil :: np_float

text \<open>The local variables of a run that has reached the end of step 6.\<close>

record analysis =
  monthly :: "monthly_period list"
  qi_fit :: real
  Di_fit :: real
  b_fit :: real
  r_squared :: np_float
  future_reserves :: np_float
  cumulative_to_date :: real
  eur :: np_float
  remaining_reserves :: np_float
  forecast_df :: "forecast_point list"

subsection \<open>Step 3: monthly aggregation\<close>

text \<open>
  \<open>groupby('year_month')\<close> has one group per distinct key, in increasing key order;
  \<open>agg\<close> sums each volume column over the group; line 112 numbers the rows.
\<close>

definition month_of :: "observation \<Rightarrow> int" where
  "month_of r = to_period_M (production_date r)"

definition group_sum :: "(observation \<Rightarrow> real) \<Rightarrow> observation list \<Rightarrow> int \<Rightarrow> real" where
  "group_sum col df k = sum_list (map col (filter (\<lambda>r. month_of r = k) df))"

definition aggregate_monthly :: "observation list \<Rightarrow> monthly_period list" where
  "aggregate_monthly df =
     map (\<lambda>(n, k).
            \<lparr>year_month = k,
             monthly_oil = group_sum oil_volume df k,
             monthly_gas = group_sum gas_volume df k,
             monthly_water = group_sum water_volume df k,
             months_on_production = n\<rparr>)
         (enumerate 0 (sort (remdups (map month_of df))))"

subsection \<open>Step 4: the fitting window and the fit\<close>

definition recent_data :: "monthly_period list \<Rightarrow> monthly_period list" where
  "recent_data m = filter (\<lambda>p. 70 \<le> months_on_production p) m"

definition fit_times :: "monthly_period list \<Rightarrow> real list" where
  "fit_times recent = map (\<lambda>p. real (months_on_production p) - 70) recent"

definition fit_volumes :: "monthly_period list \<Rightarrow> real list" where
  "fit_volumes recent = map monthly_oil recent"

text \<open>
  \<open>scipy.optimize.curve_fit\<close> is not part of the repository; it is a parameter of the
  model. It takes the model function, the two data arrays, \<open>p0\<close>, the bounds (lower and
  upper, per parameter) and \<open>maxfev\<close>, and either raises or returns the fitted triple.
\<close>

type_synonym bounds = "(np_float \<times> np_float \<times> np_float) \<times> (np_float \<times> np_float \<times> np_float)"

type_synonym curve_fit =
  "(np_float list \<Rightarrow> real \<Rightarrow> real \<Rightarrow> real \<Rightarrow> py_error + np_float list) \<Rightarrow> real list \<Rightarrow> real list
     \<Rightarrow> real \<times> real \<times> real \<Rightarrow> bounds \<Rightarrow> nat \<Rightarrow> py_error + real \<times> real \<times> real"

definition np_square :: "np_float \<Rightarrow> np_float" where
  "np_square x = np_mul x x"

text \<open>
  \<open>np.mean(q)\<close> is a float near the mean of \<open>q\<close>, and whether it is the common value of
  a constant \<open>q\<close> decides whether the total sum of squares is 0: the mean of three times
  0.1 comes out as 0.10000000000000002, that of three times 5 as 5. So the float that
  \<open>np.mean\<close> returns is a parameter \<open>mean\<close> of the fit step, and nothing is assumed about
  it. \<open>np_mean\<close> is the mean without rounding.
\<close>

type_synonym array_mean = "real list \<Rightarrow> np_float"

definition np_mean :: array_mean where
  "np_mean q = np_div (Fin (sum_list q)) (Fin (real (length q)))"

definition ss_res_of :: "real list \<Rightarrow> np_float list \<Rightarrow> np_float" where
  "ss_res_of q q_pred = np_sum (map (\<lambda>(qv, pv). np_square (np_sub (Fin qv) pv)) (zip q q_pred))"

definition ss_tot_of :: "array_mean \<Rightarrow> real list \<Rightarrow> np_float" where
  "ss_tot_of mean q = np_sum (map (\<lambda>qv. np_square (np_sub (Fin qv) (mean q))) q)"

definition goodness_of_fit ::
  "array_mean \<Rightarrow> real list \<Rightarrow> real list \<Rightarrow> real \<Rightarrow> real \<Rightarrow> real \<Rightarrow> py_error + np_float" where
  "goodness_of_fit mean t q qi Di b =
     (case hyperbolic_decline NpScalar (map Fin t) qi Di b of
        Inl e \<Rightarrow> Inl e
      | Inr q_pred \<Rightarrow>
          (let ss_res = ss_res_of q q_pred;
               ss_tot = ss_tot_of mean q
           in Inr (np_sub (Fin 1) (np_div ss_res ss_tot))))"

definition fit_curve ::
  "array_mean \<Rightarrow> curve_fit \<Rightarrow> monthly_period list
     \<Rightarrow> py_error + (real \<times> real \<times> real) \<times> np_float" where
  "fit_curve mean cf recent =
     (case recent of
        [] \<Rightarrow> Inl IndexError
      | first # rest \<Rightarrow>
          (let t = fit_times recent; q = fit_volumes recent;
               qi_guess = monthly_oil first; Di_guess = 1 / 10; b_guess = 0
           in case cf (hyperbolic_decline NpScalar) t q (qi_guess, Di_guess, b_guess)
                     ((Fin 0, Fin 0, Fin 0), (PInf, Fin 1, Fin 2)) 10000 of
                Inl e \<Rightarrow> Inl e
              | Inr (qi, Di, b) \<Rightarrow>
                  (case goodness_of_fit mean t q qi Di b of
                     Inl e \<Rightarrow> Inl e
                   | Inr r2 \<Rightarrow> Inr ((qi, Di, b), r2))))"

subsection \<open>Step 5: reserves\<close>

definition reserves :: "real \<Rightarrow> real \<Rightarrow> real \<Rightarrow> py_error + np_float" where
  "reserves qi Di b =
     (let time_future = map (\<lambda>n. Fin (real n)) [20..<210] in
      case hyperbolic_decline NpScalar time_future qi Di b of
        Inl e \<Rightarrow> Inl e
      | Inr production_future \<Rightarrow> Inr (trapz production_future time_future))"

subsection \<open>Step 6: forecast\<close>

definition forecast_months :: nat where
  "forecast_months = 120"

text \<open>\<open>.max()\<close> of a column; of an empty column it is \<open>NaT\<close>, which \<open>pd.date_range\<close> refuses.\<close>

fun column_max :: "int list \<Rightarrow> int option" where
  "column_max [] = None"
| "column_max (x # xs) = Some (fold max xs x)"

definition make_forecast :: "int \<Rightarrow> real \<Rightarrow> real \<Rightarrow> real \<Rightarrow> py_error + forecast_point list" where
  "make_forecast last_date qi Di b =
     (let t_forecast = map (\<lambda>n. Fin (real n)) [20..<20 + forecast_months] in
      case hyperbolic_decline NpScalar t_forecast qi Di b of
        Inl e \<Rightarrow> Inl e
      | Inr q_forecast \<Rightarrow>
          (let forecast_dates = map (\<lambda>i. to_timestamp (last_date + 1 + int i)) [0..<forecast_months]
           in Inr (map (\<lambda>(d, m, v).
                          \<lparr>forecast_date = d, forecast_months_on_production = m, predicted_oil = v\<rparr>)
                       (zip forecast_dates (zip [90..<90 + forecast_months] q_forecast)))))"

subsection \<open>The whole run\<close>

definition analyze_production ::
  "array_mean \<Rightarrow> curve_fit \<Rightarrow> observation list \<Rightarrow> py_error + analysis" where
  "analyze_production mean cf df =
     (let m = aggregate_monthly df in
      case fit_curve mean cf (recent_data m) of
        Inl e \<Rightarrow> Inl e
      | Inr ((qi, Di, b), r2) \<Rightarrow>
     (case reserves qi Di b of
        Inl e \<Rightarrow> Inl e
      | Inr future \<Rightarrow>
     (let cumulative = sum_list (map monthly_oil m) in
      case column_max (map year_month m) of
        None \<Rightarrow> Inl ValueError
      | Some last_date \<Rightarrow>
     (case make_forecast last_date qi Di b of
        Inl e \<Rightarrow> Inl e
      | Inr fc \<Rightarrow>
          Inr \<lparr>monthly = m, qi_fit = qi, Di_fit = Di, b_fit = b, r_squared = r2,
               future_reserves = future, cumulative_to_date = cumulative,
               eur = np_add (Fin cumulative) future, remaining_reserves = future,
               forecast_df = fc\<rparr>))))"


subsection \<open>What the optimizer is taken to do\<close>

text \<open>
  numpy's \<open>\<le>\<close>: every comparison with NaN is false. \<open>within_bounds\<close> is scipy's
  feasibility test, and \<open>honours_bounds\<close> the part of \<open>curve_fit\<close>'s documented contract
  that matters here: a returned parameter vector lies between the bounds it was given.
\<close>

fun np_le :: "np_float \<Rightarrow> np_float \<Rightarrow> bool" where
  "np_le NaN y = False"
| "np_le x NaN = False"
| "np_le (Fin a) (Fin b) = (a \<le> b)"
| "np_le NInf y = True"
| "np_le x PInf = True"
| "np_le PInf y = False"
| "np_le x NInf = False"

fun within_bounds :: "bounds \<Rightarrow> real \<times> real \<times> real \<Rightarrow> bool" where
  "within_bounds ((l1, l2, l3), (u1, u2, u3)) (x1, x2, x3) =
     (np_le l1 (Fin x1) \<and> np_le (Fin x1) u1
      \<and> np_le l2 (Fin x2) \<and> np_le (Fin x2) u2
      \<and> np_le l3 (Fin x3) \<and> np_le (Fin x3) u3)"

definition honours_bounds :: "curve_fit \<Rightarrow> bool" where
  "honours_bounds cf =
     (\<forall>f t q p0 bnd maxfev popt. cf f t q p0 bnd maxfev = Inr popt \<longrightarrow> within_bounds bnd popt)"

text \<open>A sum of squares is never negative: it is a finite number from 0 up, infinity or NaN.\<close>

fun not_negative :: "np_float \<Rightarrow> bool" where
  "not_negative (Fin a) = (0 \<le> a)"
| "not_negative PInf = True"
| "not_negative NInf = False"
| "not_negative NaN = True"

section \<open>Sample inputs\<close>

text \<open>
  Two stand-ins for the optimizer: one reports a given triple; the other reports a given
  triple when it lies within the bounds it is called with, and raises otherwise.
\<close>

definition fit_returns :: "real \<times> real \<times> real \<Rightarrow> curve_fit" where
  "fit_returns popt = (\<lambda>f t q p0 bnd maxfev. Inr popt)"

definition fit_returns_feasible :: "real \<times> real \<times> real \<Rightarrow> curve_fit" where
  "fit_returns_feasible popt =
     (\<lambda>f t q p0 bnd maxfev. if within_bounds bnd popt then Inr popt else Inl RuntimeError)"

text \<open>Three periods, numbered 70 to 72, with the same oil volume.\<close>

definition constant_window :: "monthly_period list" where
  "constant_window =
     map (\<lambda>n. \<lparr>year_month = int n, monthly_oil = 5, monthly_gas = 0, monthly_water = 0,
                months_on_production = n\<rparr>) [70, 71, 72]"

text \<open>One daily row on the first day of each of \<open>n\<close> consecutive months, from January 1970.\<close>

definition one_row_per_month :: "nat \<Rightarrow> observation list" where
  "one_row_per_month n =
     map (\<lambda>i. \<lparr>production_date = to_timestamp (int i), oil_volume = 1, gas_volume = 0,
                water_volume = 0\<rparr>) [0..<n]"


text \<open>Two rows in January 2020 and one in March 2020: February is missing.\<close>

definition gap_rows :: "observation list" where
  "gap_rows =
     [\<lparr>production_date = \<lparr>year = 2020, month = 1, day = 5\<rparr>,
       oil_volume = 1, gas_volume = 10, water_volume = 0\<rparr>,
      \<lparr>production_date = \<lparr>year = 2020, month = 1, day = 20\<rparr>,
       oil_volume = 2, gas_volume = 20, water_volume = 0\<rparr>,
      \<lparr>production_date = \<lparr>year = 2020, month = 3, day = 1\<rparr>,
       oil_volume = 4, gas_volume = 40, water_volume = 1\<rparr>]"

section \<open>The decline curve\<close>

lemma one_over_pos: "b \<noteq> 0 \<Longrightarrow> one_over k b = Inr (Fin (1 / b))"
  by (cases k) (simp_all add: one_over_def py_truediv_def)

lemma decline_point_finite:
  assumes "0 < b" and "0 \<le> Di" and "0 \<le> ti"
  shows "np_div (Fin qi) (np_power (np_add (Fin 1) (np_mul (Fin (b * Di)) (Fin ti))) (Fin (1 / b)))
           = Fin (qi / (1 + b * Di * ti) powr (1 / b))"
proof -
  have "0 \<le> b * Di * ti" using assms by simp
  then have pos: "0 < 1 + b * Di * ti" by linarith
  then have "(1 + b * Di * ti) powr (1 / b) \<noteq> 0" by simp
  with pos assms(1) show ?thesis by auto
qed

lemma hyperbolic_decline_finite:
  assumes "0 < b" and "0 \<le> Di" and "\<forall>ti\<in>set t. 0 \<le> ti"
  shows "hyperbolic_decline k (map Fin t) qi Di b
           = Inr (map (\<lambda>ti. Fin (qi / (1 + b * Di * ti) powr (1 / b))) t)"
proof -
  have "one_over k b = Inr (Fin (1 / b))"
    using assms(1) by (simp add: one_over_pos)
  moreover have
    "map (\<lambda>ti. np_div (Fin qi)
                  (np_power (np_add (Fin 1) (np_mul (Fin (b * Di)) (Fin ti))) (Fin (1 / b)))) t
      = map (\<lambda>ti. Fin (qi / (1 + b * Di * ti) powr (1 / b))) t"
    by (rule map_cong [OF refl]) (use assms in \<open>simp only: decline_point_finite\<close>)
  ultimately show ?thesis
    by (simp add: hyperbolic_decline_def comp_def)
qed

text \<open>
  At \<open>b = 0\<close> the function never reaches the exponential form: with a Python number it
  stops at \<open>1/b\<close>, with a numpy scalar it is constant in \<open>t\<close>.
\<close>

lemma hyperbolic_decline_b_zero:
  "hyperbolic_decline PyNumber t qi Di 0 = Inl ZeroDivisionError"
  "hyperbolic_decline NpScalar (map Fin ts) qi Di 0 = Inr (map (\<lambda>ti. Fin qi) ts)"
  by (simp_all add: hyperbolic_decline_def one_over_def py_truediv_def comp_def)

text \<open>
  C1. The claim: at \<open>b = 0\<close> the rate is \<open>qi * exp (- Di * t)\<close> and \<open>1/b\<close> is never
  evaluated. The function has no branch for \<open>b = 0\<close>: at \<open>t = 1\<close>, \<open>qi = 1000\<close>,
  \<open>Di = 0.1\<close> the division \<open>1/b\<close> raises for a Python number, and for a numpy scalar it
  gives infinity, the power is 1 and the result is \<open>qi\<close>, which is not
  \<open>1000 * exp (- 0.1)\<close>.
\<close>

theorem decline_at_b_zero:
  "hyperbolic_decline PyNumber [Fin 1] 1000 (1 / 10) 0 = Inl ZeroDivisionError
   \<and> hyperbolic_decline NpScalar [Fin 1] 1000 (1 / 10) 0 = Inr [Fin 1000]
   \<and> (1000 :: real) \<noteq> 1000 * exp (- (1 / 10) * 1)"
  by (simp add: hyperbolic_decline_def one_over_def py_truediv_def)

lemma rate_antitone:
  fixes qi Di b t1 t2 :: real
  assumes "0 < qi" and "0 \<le> Di" and "0 < b" and "0 \<le> t1" and "t1 \<le> t2"
  shows "qi / (1 + b * Di * t2) powr (1 / b) \<le> qi / (1 + b * Di * t1) powr (1 / b)"
proof -
  have bD: "0 \<le> b * Di" using assms(2,3) by simp
  then have "0 \<le> b * Di * t1" using assms(4) by (rule mult_nonneg_nonneg)
  then have p1: "0 < 1 + b * Di * t1" by linarith
  have "b * Di * t1 \<le> b * Di * t2"
    using assms(5) bD by (rule mult_left_mono)
  then have le: "1 + b * Di * t1 \<le> 1 + b * Di * t2" by simp
  have "(1 + b * Di * t1) powr (1 / b) \<le> (1 + b * Di * t2) powr (1 / b)"
    using p1 le assms(3) by (intro powr_mono2) simp_all
  moreover have "0 < (1 + b * Di * t1) powr (1 / b)" using p1 by simp
  moreover have "0 < (1 + b * Di * t2) powr (1 / b)" using p1 le by simp
  ultimately show ?thesis
    using assms(1) by (intro divide_left_mono mult_pos_pos) simp_all
qed

text \<open>
  C9. For \<open>qi > 0\<close>, \<open>Di \<ge> 0\<close> and \<open>b\<close> in \<open>(0, 2]\<close> the rate at time 0 is \<open>qi\<close>, and for
  \<open>0 \<le> t1 \<le> t2\<close> the rate at \<open>t2\<close> is at most the rate at \<open>t1\<close>; both are finite numbers.
\<close>

theorem decline_nonincreasing:
  assumes "0 < qi" and "0 \<le> Di" and "0 < b" and "b \<le> 2" and "0 \<le> t1" and "t1 \<le> t2"
  shows "\<exists>r1 r2. hyperbolic_decline k [Fin 0, Fin t1, Fin t2] qi Di b
                    = Inr [Fin qi, Fin r1, Fin r2] \<and> r2 \<le> r1"
proof -
  have "0 \<le> t2" using assms by linarith
  then have "hyperbolic_decline k (map Fin [0, t1, t2]) qi Di b
               = Inr (map (\<lambda>ti. Fin (qi / (1 + b * Di * ti) powr (1 / b))) [0, t1, t2])"
    using assms by (intro hyperbolic_decline_finite) simp_all
  then show ?thesis
    using rate_antitone [OF assms(1) assms(2) assms(3) assms(5) assms(6)] by simp
qed

theorem decline_nonincreasing_witness:
  "(0::real) < 1000 \<and> (0::real) \<le> 1 / 10 \<and> (0::real) < 1 \<and> (1::real) \<le> 2
   \<and> (0::real) \<le> 1 \<and> (1::real) \<le> 2
   \<and> (\<exists>r1 r2. hyperbolic_decline NpScalar [Fin 0, Fin 1, Fin 2] 1000 (1 / 10) 1
                  = Inr [Fin 1000, Fin r1, Fin r2] \<and> r2 \<le> r1)"
  using decline_nonincreasing [of 1000 "1 / 10" 1 1 2 NpScalar] by simp

section \<open>Reserves from an economic limit\<close>

text \<open>
  For \<open>b > 0\<close> and \<open>Di > 0\<close> the time \<open>calculate_eur\<close> integrates up to is the time at
  which the curve meets the economic limit.
\<close>

lemma t_max_reaches_limit:
  fixes qi Di b economic_limit :: real
  assumes "0 < b" and "0 < Di" and "0 < economic_limit" and "economic_limit \<le> qi"
  defines "t_max \<equiv> ((qi / economic_limit) powr b - 1) / (b * Di)"
  shows "0 \<le> t_max
       \<and> hyperbolic_decline PyNumber [Fin t_max] qi Di b = Inr [Fin economic_limit]"
proof -
  have ge1: "1 \<le> qi / economic_limit" using assms by simp
  then have "1 \<le> (qi / economic_limit) powr b"
    using assms(1) by (simp add: ge_one_powr_ge_zero)
  then have nonneg: "0 \<le> t_max" using assms by (simp add: t_max_def)
  have "b * Di \<noteq> 0" using assms by simp
  then have base: "1 + b * Di * t_max = (qi / economic_limit) powr b"
    by (simp add: t_max_def)
  define ratio where "ratio = qi / economic_limit"
  have "0 < ratio" using ge1 by (simp add: ratio_def)
  then have "(ratio powr b) powr (1 / b) = ratio"
    using assms(1) by (simp add: powr_powr)
  then have "((qi / economic_limit) powr b) powr (1 / b) = qi / economic_limit"
    by (simp add: ratio_def)
  then have "qi / (1 + b * Di * t_max) powr (1 / b) = economic_limit"
    using base assms by simp
  moreover have "hyperbolic_decline PyNumber (map Fin [t_max]) qi Di b
      = Inr (map (\<lambda>ti. Fin (qi / (1 + b * Di * ti) powr (1 / b))) [t_max])"
    using assms(1,2) nonneg by (intro hyperbolic_decline_finite) simp_all
  ultimately show ?thesis using nonneg by simp
qed

text \<open>
  When \<open>t_max\<close> is not a finite number, the first point of the grid is \<open>0 * step\<close> with a
  step that is not finite, which is NaN; the curve there is NaN, and so is the
  trapezoid sum.
\<close>

lemma overflow_not_finite: "\<forall>a. x \<noteq> Fin a \<Longrightarrow> \<forall>a. overflow x \<noteq> Fin a"
  by (cases x) simp_all

lemma np_add_NaN [simp]: "np_add x NaN = NaN"
  by (cases x) simp_all

lemma np_mul_NaN [simp]: "np_mul x NaN = NaN"
  by (cases x) simp_all

lemma np_div_NaN [simp]: "np_div x NaN = NaN"
  by (cases x) simp_all

lemma np_div_by_zero_not_finite: "\<forall>a. np_div x (Fin 0) \<noteq> Fin a"
  by (cases x) simp_all

lemma fold_np_add_NaN: "fold (\<lambda>x acc. np_add acc x) xs NaN = NaN"
  by (induction xs) simp_all

lemma np_sum_NaN_first: "np_sum (NaN # xs) = NaN"
  by (simp add: np_sum_def fold_np_add_NaN)

lemma linspace_not_finite:
  assumes "\<forall>a. stop \<noteq> Fin a" and "2 < num"
  shows "\<exists>x1 xs. linspace (Fin 0) stop num = NaN # x1 # xs"
proof -
  define step where "step = np_div (np_sub stop (Fin 0)) (Fin (real (num - 1)))"
  have "0 < real (num - 1)" using assms(2) by simp
  then have step: "\<forall>a. step \<noteq> Fin a"
    using assms(1) unfolding step_def by (cases stop) (simp_all add: np_sub_def)
  then have first: "np_add (np_mul (Fin (real 0)) step) (Fin 0) = NaN"
    by (cases step) simp_all
  have "0 < num - 1" and "Suc 0 < num - 1" using assms(2) by simp_all
  then have "[0..<num - 1] = 0 # Suc 0 # [Suc (Suc 0)..<num - 1]"
    by (simp add: upt_conv_Cons)
  then have "map (\<lambda>i. np_add (np_mul (Fin (real i)) step) (Fin 0)) [0..<num - 1]
      = NaN # np_add (np_mul (Fin (real (Suc 0))) step) (Fin 0)
          # map (\<lambda>i. np_add (np_mul (Fin (real i)) step) (Fin 0)) [Suc (Suc 0)..<num - 1]"
    using first by simp
  then show ?thesis
    using assms(2) by (simp add: linspace_def step_def Let_def)
qed

lemma one_over_not_zero: "one_over k b = Inr ex \<Longrightarrow> ex \<noteq> Fin 0"
  by (cases k) (auto simp: one_over_def py_truediv_def split: if_splits)

lemma integral_to_not_finite:
  assumes "\<forall>a. t_max \<noteq> Fin a" and "one_over k b = Inr ex"
  shows "(case hyperbolic_decline k (linspace (Fin 0) t_max 1000) qi Di b of
            Inl e \<Rightarrow> Inl e
          | Inr production_points \<Rightarrow>
              Inr (trapz production_points (linspace (Fin 0) t_max 1000))) = Inr NaN"
proof -
  obtain x1 xs where grid: "linspace (Fin 0) t_max 1000 = NaN # x1 # xs"
    using linspace_not_finite [OF assms(1), of 1000] by auto
  have "ex \<noteq> Fin 0" using assms(2) by (rule one_over_not_zero)
  then have "np_power NaN ex = NaN" by simp
  then obtain y1 ys where
    "hyperbolic_decline k (NaN # x1 # xs) qi Di b = Inr (NaN # y1 # ys)"
    by (simp add: hyperbolic_decline_def assms(2))
  then show ?thesis
    by (simp add: grid trapz_def np_sum_NaN_first)
qed

lemma max_float_pos: "0 < max_float"
  by (simp add: max_float_def)

lemma overflow_zero: "overflow (Fin 0) = Fin 0"
  using max_float_pos by simp

lemma calculate_eur_steps:
  assumes "scalar_div k (Fin qi) (Fin economic_limit) = Inr ratio"
    and "scalar_pow k ratio b = Inr p"
  shows "calculate_eur k qi Di b economic_limit =
     (case scalar_div k (np_sub p (Fin 1)) (overflow (Fin (b * Di))) of
        Inl e \<Rightarrow> Inl e
      | Inr t_max \<Rightarrow>
          (case hyperbolic_decline k (linspace (Fin 0) t_max 1000) qi Di b of
             Inl e \<Rightarrow> Inl e
           | Inr production_points \<Rightarrow>
               Inr (trapz production_points (linspace (Fin 0) t_max 1000))))"
  by (simp add: calculate_eur_def assms Let_def split: sum.splits del: overflow.simps)

lemma calculate_eur_pow_raises:
  assumes "scalar_div k (Fin qi) (Fin economic_limit) = Inr ratio"
    and "scalar_pow k ratio b = Inl e"
  shows "calculate_eur k qi Di b economic_limit = Inl e"
  by (simp add: calculate_eur_def assms)

lemma py_div_by_zero: "scalar_div PyNumber x (overflow (Fin (b * 0))) = Inl ZeroDivisionError"
  by (simp add: scalar_div_def overflow_zero del: overflow.simps)

lemma calculate_eur_zero_Di_py:
  assumes "0 < economic_limit" and "economic_limit < qi"
  shows "calculate_eur PyNumber qi 0 b economic_limit
           = (if qi / economic_limit \<le> max_float \<and> max_float < (qi / economic_limit) powr b
              then Inl OverflowError else Inl ZeroDivisionError)"
proof -
  define ratio where "ratio = qi / economic_limit"
  have ratio: "1 < ratio" using assms by (simp add: ratio_def)
  note mf = max_float_pos
  have div1: "scalar_div PyNumber (Fin qi) (Fin economic_limit) = Inr (overflow (Fin ratio))"
    using assms by (simp add: scalar_div_def ratio_def del: overflow.simps)
  have no_pow_error: "calculate_eur PyNumber qi 0 b economic_limit = Inl ZeroDivisionError"
    if "scalar_pow PyNumber (overflow (Fin ratio)) b = Inr p" for p
    using calculate_eur_steps [OF div1 that, of 0] by (simp only: py_div_by_zero sum.case)
  show ?thesis
  proof (cases "ratio \<le> max_float")
    case in_range: True
    then have ov: "overflow (Fin ratio) = Fin ratio" using ratio mf by simp
    show ?thesis
    proof (cases "b = 0")
      case True
      then have "scalar_pow PyNumber (overflow (Fin ratio)) b = Inr (Fin 1)"
        by (simp add: scalar_pow_def)
      then have "calculate_eur PyNumber qi 0 b economic_limit = Inl ZeroDivisionError"
        by (rule no_pow_error)
      moreover have "\<not> max_float < ratio powr b"
        using True ratio by (simp add: max_float_def)
      ultimately show ?thesis by (simp add: ratio_def)
    next
      case False
      then have pw: "np_pow ratio (Fin b) = Fin (ratio powr b)" using ratio by simp
      show ?thesis
      proof (cases "max_float < ratio powr b")
        case True
        then have "scalar_pow PyNumber (Fin ratio) b = Inl OverflowError"
          using False ratio by (simp add: scalar_pow_def pw)
        then have "scalar_pow PyNumber (overflow (Fin ratio)) b = Inl OverflowError"
          by (simp only: ov)
        with div1 have "calculate_eur PyNumber qi 0 b economic_limit = Inl OverflowError"
          by (rule calculate_eur_pow_raises)
        then show ?thesis using True in_range by (simp add: ratio_def)
      next
        case small: False
        moreover have "\<not> ratio powr b < - max_float"
          using mf powr_ge_zero [of ratio b] by linarith
        ultimately have "overflow (Fin (ratio powr b)) = Fin (ratio powr b)"
          by simp
        then have "scalar_pow PyNumber (Fin ratio) b = Inr (Fin (ratio powr b))"
          using False ratio by (simp add: scalar_pow_def pw del: overflow.simps)
        then have "scalar_pow PyNumber (overflow (Fin ratio)) b = Inr (Fin (ratio powr b))"
          by (simp only: ov)
        then have "calculate_eur PyNumber qi 0 b economic_limit = Inl ZeroDivisionError"
          by (rule no_pow_error)
        then show ?thesis using small by (simp add: ratio_def)
      qed
    qed
  next
    case False
    then have ov: "overflow (Fin ratio) = PInf" by simp
    have "\<exists>p. scalar_pow PyNumber PInf b = Inr p"
      by (simp add: scalar_pow_def)
    then obtain p where "scalar_pow PyNumber (overflow (Fin ratio)) b = Inr p"
      using ov by auto
    then have "calculate_eur PyNumber qi 0 b economic_limit = Inl ZeroDivisionError"
      by (rule no_pow_error)
    then show ?thesis using False by (simp add: ratio_def)
  qed
qed

lemma calculate_eur_zero_divisor_np:
  assumes "b * Di = 0"
  shows "calculate_eur NpScalar qi Di b economic_limit = Inr NaN"
proof -
  obtain ratio where div1: "scalar_div NpScalar (Fin qi) (Fin economic_limit) = Inr ratio"
    by (simp add: scalar_div_def)
  obtain p where pw: "scalar_pow NpScalar ratio b = Inr p"
    by (simp add: scalar_pow_def)
  define t_max where "t_max = overflow (np_div (np_sub p (Fin 1)) (Fin 0))"
  have div2: "scalar_div NpScalar (np_sub p (Fin 1)) (overflow (Fin (b * Di))) = Inr t_max"
    by (simp add: assms scalar_div_def t_max_def overflow_zero del: overflow.simps)
  have "\<forall>a. t_max \<noteq> Fin a"
    unfolding t_max_def by (rule overflow_not_finite) (rule np_div_by_zero_not_finite)
  moreover have "one_over NpScalar b = Inr (np_div (Fin 1) (Fin b))"
    by (simp add: one_over_def)
  ultimately have "(case hyperbolic_decline NpScalar (linspace (Fin 0) t_max 1000) qi Di b of
            Inl e \<Rightarrow> Inl e
          | Inr production_points \<Rightarrow>
              Inr (trapz production_points (linspace (Fin 0) t_max 1000))) = Inr NaN"
    by (rule integral_to_not_finite)
  then show ?thesis
    using calculate_eur_steps [OF div1 pw, of Di] by (simp only: div2 sum.case)
qed

text \<open>
  For \<open>b > 0\<close> and \<open>Di > 0\<close>, and as long as no scalar step leaves the float range,
  \<open>calculate_eur\<close> returns the trapezoid sum of the curve over 1000 points from 0 to
  \<open>t_max\<close>.
\<close>

lemma linspace_finite:
  assumes "1 < num"
  shows "linspace (Fin 0) (Fin s) num
           = map Fin (map (\<lambda>i. real i * (s / real (num - 1))) [0..<num - 1] @ [s])"
  using assms by (simp add: linspace_def np_sub_def Let_def comp_def)

lemma calculate_eur_hyperbolic:
  fixes qi Di b economic_limit :: real
  defines "t_max \<equiv> ((qi / economic_limit) powr b - 1) / (b * Di)"
  assumes "0 < b" and "0 < Di" and "0 < economic_limit" and "economic_limit \<le> qi"
    and "qi / economic_limit \<le> max_float" and "(qi / economic_limit) powr b \<le> max_float"
    and "b * Di \<le> max_float" and "t_max \<le> max_float"
  shows "\<exists>grid. length grid = 1000 \<and> last grid = t_max \<and> (\<forall>t\<in>set grid. 0 \<le> t \<and> t \<le> t_max)
      \<and> calculate_eur PyNumber qi Di b economic_limit
           = Inr (trapz (map (\<lambda>t. Fin (qi / (1 + b * Di * t) powr (1 / b))) grid)
                    (map Fin grid))"
proof -
  define ratio where "ratio = qi / economic_limit"
  define grid where "grid = map (\<lambda>i. real i * (t_max / real (1000 - 1))) [0..<1000 - 1] @ [t_max]"
  note mf = max_float_pos
  have ratio: "1 \<le> ratio" using assms by (simp add: ratio_def)
  have t_max: "0 \<le> t_max"
    using t_max_reaches_limit [of b Di economic_limit qi] assms by (simp add: t_max_def)
  have "ratio \<le> max_float" using assms(6) by (simp add: ratio_def)
  then have "overflow (Fin ratio) = Fin ratio" using ratio mf by simp
  moreover have "scalar_div PyNumber (Fin qi) (Fin economic_limit) = Inr (overflow (Fin ratio))"
    using assms(4) by (simp add: scalar_div_def ratio_def del: overflow.simps)
  ultimately have div1: "scalar_div PyNumber (Fin qi) (Fin economic_limit) = Inr (Fin ratio)"
    by simp
  have np: "np_pow ratio (Fin b) = Fin (ratio powr b)"
    using ratio assms(2) by simp
  have "ratio powr b \<le> max_float" using assms(7) by (simp add: ratio_def)
  moreover have "\<not> ratio powr b < - max_float"
    using mf powr_ge_zero [of ratio b] by linarith
  ultimately have "overflow (Fin (ratio powr b)) = Fin (ratio powr b)"
    by simp
  then have pw: "scalar_pow PyNumber (Fin ratio) b = Inr (Fin (ratio powr b))"
    using assms(2) ratio np by (simp add: scalar_pow_def del: overflow.simps)
  have "0 < b * Di" using assms by simp
  then have den: "overflow (Fin (b * Di)) = Fin (b * Di)"
    using assms(8) mf by simp
  have "overflow (Fin t_max) = Fin t_max"
    using t_max assms(9) mf by simp
  moreover have "b * Di \<noteq> 0" using assms(2,3) by simp
  then have "np_div (Fin (ratio powr b - 1)) (Fin (b * Di)) = Fin ((ratio powr b - 1) / (b * Di))"
    by (simp only: np_div.simps if_False)
  then have "np_div (np_sub (Fin (ratio powr b)) (Fin 1)) (Fin (b * Di)) = Fin t_max"
    by (simp add: np_sub_def t_max_def ratio_def)
  ultimately
  have div2: "scalar_div PyNumber (np_sub (Fin (ratio powr b)) (Fin 1)) (overflow (Fin (b * Di)))
                = Inr (Fin t_max)"
    using assms(2,3) by (simp add: den scalar_div_def del: overflow.simps)
  have lin: "linspace (Fin 0) (Fin t_max) 1000 = map Fin grid"
    unfolding grid_def by (rule linspace_finite) simp
  have bounds: "\<forall>t\<in>set grid. 0 \<le> t \<and> t \<le> t_max"
  proof
    fix t assume "t \<in> set grid"
    then consider "t = t_max" | i where "i < 999" and "t = real i * (t_max / 999)"
      by (auto simp: grid_def)
    then show "0 \<le> t \<and> t \<le> t_max"
    proof cases
      case 1
      then show ?thesis using t_max by simp
    next
      case 2
      have "real i / 999 \<le> 1" using 2(1) by simp
      then have "real i / 999 * t_max \<le> 1 * t_max"
        using t_max by (rule mult_right_mono)
      then have "t \<le> t_max" using 2(2) by simp
      moreover have "0 \<le> real i * (t_max / 999)"
        using t_max by (intro mult_nonneg_nonneg) simp_all
      then have "0 \<le> t" by (simp only: 2(2))
      ultimately show ?thesis by simp
    qed
  qed
  then have "\<forall>t\<in>set grid. 0 \<le> t" by blast
  then have "hyperbolic_decline PyNumber (map Fin grid) qi Di b
      = Inr (map (\<lambda>t. Fin (qi / (1 + b * Di * t) powr (1 / b))) grid)"
    using assms(2,3) by (intro hyperbolic_decline_finite) simp_all
  then have "calculate_eur PyNumber qi Di b economic_limit
           = Inr (trapz (map (\<lambda>t. Fin (qi / (1 + b * Di * t) powr (1 / b))) grid)
                    (map Fin grid))"
    using calculate_eur_steps [OF div1 pw, of Di] by (simp only: div2 lin sum.case)
  moreover have "length grid = 1000" and "last grid = t_max"
    by (simp_all add: grid_def)
  ultimately show ?thesis using bounds by blast
qed

text \<open>
  C3. The claim: \<open>t_max\<close> comes from the exponential form when \<open>b = 0\<close>, and
  \<open>qi = 1000\<close>, \<open>Di = 0.10\<close>, \<open>b = 0\<close>, \<open>economic_limit = 10\<close> give \<open>t_max\<close> about 46.05 and
  reserves about 9900. \<open>calculate_eur\<close> has one formula for \<open>t_max\<close>, which divides by
  \<open>b * Di\<close>: on that input it computes \<open>(100 ** 0 - 1) / (0 * 0.10)\<close>, which raises
  \<open>ZeroDivisionError\<close> for Python numbers and is NaN for numpy scalars, and then so is
  the result.
\<close>

theorem calculate_eur_at_b_zero:
  "calculate_eur PyNumber 1000 (1 / 10) 0 10 = Inl ZeroDivisionError
   \<and> calculate_eur NpScalar 1000 (1 / 10) 0 10 = Inr NaN"
proof -
  have "scalar_div PyNumber (Fin 1000) (Fin 10) = Inr (Fin 100)"
    by (simp add: scalar_div_def max_float_def)
  moreover have "scalar_pow PyNumber (Fin 100) 0 = Inr (Fin 1)"
    by (simp add: scalar_pow_def)
  ultimately have "calculate_eur PyNumber 1000 (1 / 10) 0 10 =
     (case scalar_div PyNumber (np_sub (Fin 1) (Fin 1)) (overflow (Fin (0 * (1 / 10)))) of
        Inl e \<Rightarrow> Inl e
      | Inr t_max \<Rightarrow>
          (case hyperbolic_decline PyNumber (linspace (Fin 0) t_max 1000) 1000 (1 / 10) 0 of
             Inl e \<Rightarrow> Inl e
           | Inr production_points \<Rightarrow>
               Inr (trapz production_points (linspace (Fin 0) t_max 1000))))"
    by (rule calculate_eur_steps)
  then have "calculate_eur PyNumber 1000 (1 / 10) 0 10 = Inl ZeroDivisionError"
    by (simp add: scalar_div_def overflow_zero del: overflow.simps)
  moreover have "calculate_eur NpScalar 1000 (1 / 10) 0 10 = Inr NaN"
    by (rule calculate_eur_zero_divisor_np) simp
  ultimately show ?thesis by simp
qed

text \<open>
  C4, as claimed: with \<open>Di = 0\<close> and \<open>qi\<close> above a positive limit the estimator signals
  an \<open>UnboundedReserveError\<close>. It does not at \<open>qi = 1000\<close>, \<open>b = 1\<close>, limit 10, neither for
  Python numbers nor for numpy scalars.
\<close>

theorem calculate_eur_no_unbounded_error:
  "calculate_eur PyNumber 1000 0 1 10 \<noteq> Inl UnboundedReserveError
   \<and> calculate_eur NpScalar 1000 0 1 10 \<noteq> Inl UnboundedReserveError"
  using calculate_eur_zero_Di_py [of 10 1000 1] calculate_eur_zero_divisor_np [of 1 0 1000 10]
  by (simp split: if_splits)

text \<open>
  C4, amended: for float arguments with \<open>Di = 0\<close> and \<open>qi\<close> above a positive limit,
  \<open>calculate_eur\<close> detects nothing and has no \<open>UnboundedReserveError\<close>. Called with Python
  numbers it raises: \<open>OverflowError\<close> when \<open>(qi/economic_limit) ** b\<close> is beyond the float
  range for a quotient within it, and \<open>ZeroDivisionError\<close> at the division by \<open>b * Di\<close>
  otherwise. Called with numpy scalars it raises nothing and returns NaN.
\<close>

theorem calculate_eur_zero_Di:
  assumes "0 < economic_limit" and "economic_limit < qi" and "qi \<le> max_float"
    and "\<bar>b\<bar> \<le> max_float"
  shows "calculate_eur PyNumber qi 0 b economic_limit
           = (if qi / economic_limit \<le> max_float \<and> max_float < (qi / economic_limit) powr b
              then Inl OverflowError else Inl ZeroDivisionError)
       \<and> calculate_eur NpScalar qi 0 b economic_limit = Inr NaN"
  using calculate_eur_zero_Di_py [OF assms(1,2)] calculate_eur_zero_divisor_np [of b 0]
  by simp

theorem calculate_eur_zero_Di_witness:
  "(0::real) < 10 \<and> (10::real) < 1000 \<and> (1000::real) \<le> max_float \<and> \<bar>1::real\<bar> \<le> max_float
   \<and> calculate_eur PyNumber 1000 0 1 10 = Inl ZeroDivisionError
   \<and> calculate_eur NpScalar 1000 0 1 10 = Inr NaN"
proof -
  have range: "(1000::real) \<le> max_float" "\<bar>1::real\<bar> \<le> max_float"
    by (simp_all add: max_float_def)
  have "\<not> max_float < (1000 / 10) powr (1::real)"
    by (simp add: max_float_def)
  then show ?thesis
    using calculate_eur_zero_Di [of 10 1000 1] range by simp
qed

text \<open>
  An input on which the power overflows before the division is reached.
\<close>

lemma calculate_eur_overflows:
  "calculate_eur PyNumber (10 ^ 200) 0 2 10 = Inl OverflowError"
proof -
  have "((10::real) ^ 200 / 10) powr 2 = 10 ^ 398"
    by simp
  moreover have "(10::real) ^ 200 / 10 \<le> max_float" and "max_float < (10::real) ^ 398"
    by (simp_all add: max_float_def)
  ultimately show ?thesis
    using calculate_eur_zero_Di_py [of 10 "10 ^ 200" 2] by simp
qed

section \<open>Monthly aggregation\<close>

lemma period_of_timestamp: "to_period_M (to_timestamp p) = p"
  by (simp add: to_period_M_def to_timestamp_def)

lemma length_aggregate_monthly:
  "length (aggregate_monthly df) = length (remdups (map month_of df))"
  by (simp add: aggregate_monthly_def)

lemma year_month_aggregate_monthly:
  "map year_month (aggregate_monthly df) = sort (remdups (map month_of df))"
proof -
  have "map year_month (aggregate_monthly df)
          = map snd (enumerate 0 (sort (remdups (map month_of df))))"
    by (simp add: aggregate_monthly_def case_prod_unfold comp_def)
  then show ?thesis by simp
qed

lemma months_on_production_aggregate_monthly:
  "map months_on_production (aggregate_monthly df) = [0..<length (aggregate_monthly df)]"
proof -
  have "map months_on_production (aggregate_monthly df)
          = map fst (enumerate 0 (sort (remdups (map month_of df))))"
    by (simp add: aggregate_monthly_def case_prod_unfold comp_def)
  then show ?thesis by (simp add: length_aggregate_monthly)
qed

lemma sums_aggregate_monthly:
  assumes "p \<in> set (aggregate_monthly df)"
  shows "monthly_oil p = group_sum oil_volume df (year_month p)
       \<and> monthly_gas p = group_sum gas_volume df (year_month p)
       \<and> monthly_water p = group_sum water_volume df (year_month p)"
  using assms by (auto simp: aggregate_monthly_def)

lemma nth_months_on_production:
  assumes "i < length (aggregate_monthly df)"
  shows "months_on_production (aggregate_monthly df ! i) = i"
proof -
  have "map months_on_production (aggregate_monthly df) ! i
          = [0..<length (aggregate_monthly df)] ! i"
    by (simp only: months_on_production_aggregate_monthly)
  then show ?thesis using assms by simp
qed

lemma aggregate_gap_rows:
  "aggregate_monthly gap_rows =
     [\<lparr>year_month = 600, monthly_oil = 3, monthly_gas = 30, monthly_water = 0,
       months_on_production = 0\<rparr>,
      \<lparr>year_month = 602, monthly_oil = 4, monthly_gas = 40, monthly_water = 1,
       months_on_production = 1\<rparr>]"
  by (simp add: aggregate_monthly_def gap_rows_def month_of_def to_period_M_def group_sum_def)

text \<open>
  C8. Whatever the rows and their order: no rows give no periods; the periods are in
  strictly increasing month order, one for each month that has a row; each volume of a
  period is the sum of that column over the rows of its month; \<open>months_on_production\<close>
  counts the periods from 0 and so grows by exactly 1 from each period to the next,
  whether or not the calendar months are adjacent.
\<close>

theorem aggregate_monthly_groups:
  "aggregate_monthly [] = []
   \<and> sorted_wrt (<) (map year_month (aggregate_monthly df))
   \<and> set (map year_month (aggregate_monthly df)) = month_of ` set df
   \<and> (\<forall>p \<in> set (aggregate_monthly df).
        monthly_oil p = sum_list (map oil_volume (filter (\<lambda>r. month_of r = year_month p) df))
      \<and> monthly_gas p = sum_list (map gas_volume (filter (\<lambda>r. month_of r = year_month p) df))
      \<and> monthly_water p
          = sum_list (map water_volume (filter (\<lambda>r. month_of r = year_month p) df)))
   \<and> map months_on_production (aggregate_monthly df) = [0..<length (aggregate_monthly df)]
   \<and> (\<forall>i. Suc i < length (aggregate_monthly df) \<longrightarrow>
        months_on_production (aggregate_monthly df ! Suc i)
          = months_on_production (aggregate_monthly df ! i) + 1)"
proof -
  have empty: "aggregate_monthly [] = []"
    by (simp add: aggregate_monthly_def)
  have "sorted (sort (remdups (map month_of df)))"
    and "distinct (sort (remdups (map month_of df)))"
    by simp_all
  then have "sorted_wrt (<) (sort (remdups (map month_of df)))"
    by (simp add: strict_sorted_iff)
  then have ordered: "sorted_wrt (<) (map year_month (aggregate_monthly df))"
    by (simp only: year_month_aggregate_monthly)
  have keys: "set (map year_month (aggregate_monthly df)) = month_of ` set df"
    by (simp add: year_month_aggregate_monthly)
  have sums: "\<forall>p \<in> set (aggregate_monthly df).
        monthly_oil p = sum_list (map oil_volume (filter (\<lambda>r. month_of r = year_month p) df))
      \<and> monthly_gas p = sum_list (map gas_volume (filter (\<lambda>r. month_of r = year_month p) df))
      \<and> monthly_water p
          = sum_list (map water_volume (filter (\<lambda>r. month_of r = year_month p) df))"
    using sums_aggregate_monthly [of _ df] by (simp add: group_sum_def)
  have step: "\<forall>i. Suc i < length (aggregate_monthly df) \<longrightarrow>
        months_on_production (aggregate_monthly df ! Suc i)
          = months_on_production (aggregate_monthly df ! i) + 1"
    by (simp add: nth_months_on_production)
  from empty ordered keys sums months_on_production_aggregate_monthly step
  show ?thesis by blast
qed

theorem aggregate_monthly_groups_witness:
  "aggregate_monthly gap_rows ! 0 \<in> set (aggregate_monthly gap_rows)
   \<and> monthly_oil (aggregate_monthly gap_rows ! 0)
       = sum_list (map oil_volume (filter (\<lambda>r. month_of r = 600) gap_rows))
   \<and> monthly_oil (aggregate_monthly gap_rows ! 0) = 3
   \<and> Suc 0 < length (aggregate_monthly gap_rows)
   \<and> year_month (aggregate_monthly gap_rows ! Suc 0)
       = year_month (aggregate_monthly gap_rows ! 0) + 2
   \<and> months_on_production (aggregate_monthly gap_rows ! Suc 0)
       = months_on_production (aggregate_monthly gap_rows ! 0) + 1"
proof -
  have mem: "aggregate_monthly gap_rows ! 0 \<in> set (aggregate_monthly gap_rows)"
    and len: "Suc 0 < length (aggregate_monthly gap_rows)"
    and ym: "year_month (aggregate_monthly gap_rows ! 0) = 600"
    and ym1: "year_month (aggregate_monthly gap_rows ! Suc 0) = 602"
    and oil: "monthly_oil (aggregate_monthly gap_rows ! 0) = 3"
    by (simp_all add: aggregate_gap_rows)
  from aggregate_monthly_groups [of gap_rows] mem
  have "monthly_oil (aggregate_monthly gap_rows ! 0)
       = sum_list (map oil_volume
           (filter (\<lambda>r. month_of r = year_month (aggregate_monthly gap_rows ! 0)) gap_rows))"
    by blast
  moreover from aggregate_monthly_groups [of gap_rows] len
  have "months_on_production (aggregate_monthly gap_rows ! Suc 0)
       = months_on_production (aggregate_monthly gap_rows ! 0) + 1"
    by blast
  ultimately show ?thesis using mem len ym ym1 oil by simp
qed


section \<open>The fitting window\<close>

lemma filter_enumerate_from:
  "filter (\<lambda>(n, k). c \<le> n) (enumerate m xs) = drop (c - m) (enumerate m xs)"
proof (induction xs arbitrary: m)
  case Nil
  then show ?case by simp
next
  case (Cons x xs)
  show ?case
  proof (cases "c \<le> m")
    case True
    then show ?thesis using Cons [of "Suc m"] by simp
  next
    case False
    then have "c - m = Suc (c - Suc m)" by simp
    then show ?thesis using False Cons [of "Suc m"] by simp
  qed
qed

lemma recent_data_drop:
  "recent_data (aggregate_monthly df) = drop 70 (aggregate_monthly df)"
proof -
  have "recent_data (aggregate_monthly df)
      = map (\<lambda>(n, k).
            \<lparr>year_month = k,
             monthly_oil = group_sum oil_volume df k,
             monthly_gas = group_sum gas_volume df k,
             monthly_water = group_sum water_volume df k,
             months_on_production = n\<rparr>)
          (filter (\<lambda>(n, k). 70 \<le> n) (enumerate 0 (sort (remdups (map month_of df)))))"
    by (simp add: recent_data_def aggregate_monthly_def filter_map comp_def case_prod_unfold)
  then show ?thesis
    by (simp add: filter_enumerate_from aggregate_monthly_def drop_map)
qed

lemma rebased_times: "map (\<lambda>m. real m - 70) [70..<n] = map real [0..<n - 70]"
  by (rule nth_equalityI) simp_all

lemma fit_times_recent:
  "fit_times (recent_data (aggregate_monthly df))
     = map real [0..<length (aggregate_monthly df) - 70]"
proof -
  have "map months_on_production (drop 70 (aggregate_monthly df))
          = [70..<length (aggregate_monthly df)]"
    by (simp add: months_on_production_aggregate_monthly drop_map [symmetric])
  then have "map (\<lambda>m. real m - 70) (map months_on_production (drop 70 (aggregate_monthly df)))
          = map real [0..<length (aggregate_monthly df) - 70]"
    by (simp only: rebased_times)
  then show ?thesis
    by (simp add: fit_times_def recent_data_drop comp_def)
qed

lemma length_one_row_per_month: "length (aggregate_monthly (one_row_per_month n)) = n"
proof -
  have "map month_of (one_row_per_month n) = map int [0..<n]"
    by (simp add: one_row_per_month_def month_of_def period_of_timestamp comp_def)
  moreover have "distinct (map int [0..<n])"
    by (simp add: distinct_map)
  ultimately have "remdups (map month_of (one_row_per_month n)) = map int [0..<n]"
    by (simp only: distinct_remdups_id)
  then show ?thesis
    by (simp add: length_aggregate_monthly)
qed

lemma fitting_window_from_70:
  "recent_data (aggregate_monthly df) = drop 70 (aggregate_monthly df)"
  "fit_times (recent_data (aggregate_monthly df))
     = map real [0..<length (aggregate_monthly df) - 70]"
  "fit_volumes (recent_data (aggregate_monthly df))
     = map monthly_oil (drop 70 (aggregate_monthly df))"
  using recent_data_drop [of df] fit_times_recent [of df]
  by (simp_all add: fit_volumes_def)

text \<open>
  The window is the last 20 periods for a series of 90 periods (and, both being empty,
  for an empty series), and for no other.
\<close>

lemma window_is_last_20_iff:
  "recent_data (aggregate_monthly df)
     = drop (length (aggregate_monthly df) - 20) (aggregate_monthly df)
   \<longleftrightarrow> length (aggregate_monthly df) = 90 \<or> aggregate_monthly df = []"
proof
  assume "recent_data (aggregate_monthly df)
     = drop (length (aggregate_monthly df) - 20) (aggregate_monthly df)"
  then have "length (drop 70 (aggregate_monthly df))
     = length (drop (length (aggregate_monthly df) - 20) (aggregate_monthly df))"
    by (simp only: recent_data_drop)
  then have "length (aggregate_monthly df) = 90 \<or> length (aggregate_monthly df) = 0"
    by (simp only: length_drop) arith
  then show "length (aggregate_monthly df) = 90 \<or> aggregate_monthly df = []"
    by simp
next
  assume "length (aggregate_monthly df) = 90 \<or> aggregate_monthly df = []"
  then show "recent_data (aggregate_monthly df)
     = drop (length (aggregate_monthly df) - 20) (aggregate_monthly df)"
    by (auto simp: recent_data_drop)
qed

text \<open>
  C5. The claim: the fitting window is the last 20 periods of the series, whatever its
  length, with time counted from 0. The script's comments say the same (``LAST 20 MONTHS
  ONLY'', ``Filter to last 20 months only''), but the filter is the literal
  \<open>months_on_production >= 70\<close>. For a series of 100 months the window is the 30 periods
  numbered 70 to 99, with times 0 to 29, and not the last 20 periods.
\<close>

theorem window_is_not_last_20:
  "length (aggregate_monthly (one_row_per_month 100)) = 100
   \<and> map months_on_production (recent_data (aggregate_monthly (one_row_per_month 100)))
       = [70..<100]
   \<and> fit_times (recent_data (aggregate_monthly (one_row_per_month 100))) = map real [0..<30]
   \<and> length (recent_data (aggregate_monthly (one_row_per_month 100))) = 30
   \<and> recent_data (aggregate_monthly (one_row_per_month 100))
       \<noteq> drop (length (aggregate_monthly (one_row_per_month 100)) - 20)
            (aggregate_monthly (one_row_per_month 100))"
proof -
  have len: "length (aggregate_monthly (one_row_per_month 100)) = 100"
    by (simp only: length_one_row_per_month)
  have "map months_on_production (drop 70 (aggregate_monthly (one_row_per_month 100)))
          = drop 70 [0..<100]"
    by (simp only: drop_map [symmetric] months_on_production_aggregate_monthly len)
  then have numbers:
    "map months_on_production (recent_data (aggregate_monthly (one_row_per_month 100)))
       = [70..<100]"
    by (simp only: recent_data_drop drop_upt) simp
  have times: "fit_times (recent_data (aggregate_monthly (one_row_per_month 100)))
       = map real [0..<30]"
    by (simp only: fit_times_recent len) simp
  have size: "length (recent_data (aggregate_monthly (one_row_per_month 100))) = 30"
    by (simp add: recent_data_drop len)
  have "\<not> (length (aggregate_monthly (one_row_per_month 100)) = 90
           \<or> aggregate_monthly (one_row_per_month 100) = [])"
    using len by auto
  then have "recent_data (aggregate_monthly (one_row_per_month 100))
       \<noteq> drop (length (aggregate_monthly (one_row_per_month 100)) - 20)
            (aggregate_monthly (one_row_per_month 100))"
    by (simp only: window_is_last_20_iff not_False_eq_True)
  with len numbers times size show ?thesis by blast
qed

section \<open>The run as a whole\<close>

lemma hyperbolic_decline_np:
  "hyperbolic_decline NpScalar t qi Di b
     = Inr (map (\<lambda>ti. np_div (Fin qi)
                        (np_power (np_add (Fin 1) (np_mul (Fin (b * Di)) ti))
                           (np_div (Fin 1) (Fin b)))) t)"
  by (simp add: hyperbolic_decline_def one_over_def)

lemma goodness_of_fit_np: "\<exists>r2. goodness_of_fit mean t q qi Di b = Inr r2"
  by (simp add: goodness_of_fit_def hyperbolic_decline_np Let_def)

lemma reserves_np: "\<exists>future. reserves qi Di b = Inr future"
  by (simp add: reserves_def hyperbolic_decline_np Let_def del: upt_rec_numeral)

lemma make_forecast_np: "\<exists>fc. make_forecast last_date qi Di b = Inr fc"
  by (simp add: make_forecast_def hyperbolic_decline_np Let_def)

lemma group_sums_total:
  fixes col :: "'a \<Rightarrow> real"
  assumes "finite K" and "g ` set xs \<subseteq> K"
  shows "(\<Sum>k\<in>K. sum_list (map col (filter (\<lambda>r. g r = k) xs))) = sum_list (map col xs)"
  using assms(2)
proof (induction xs)
  case Nil
  then show ?case by simp
next
  case (Cons x xs)
  have "(\<Sum>k\<in>K. sum_list (map col (filter (\<lambda>r. g r = k) (x # xs))))
      = (\<Sum>k\<in>K. (if g x = k then col x else 0) + sum_list (map col (filter (\<lambda>r. g r = k) xs)))"
    by (intro sum.cong) simp_all
  also have "\<dots> = (\<Sum>k\<in>K. if g x = k then col x else 0)
                 + (\<Sum>k\<in>K. sum_list (map col (filter (\<lambda>r. g r = k) xs)))"
    by (simp add: sum.distrib)
  also have "(\<Sum>k\<in>K. if g x = k then col x else 0) = col x"
    using assms(1) Cons.prems by simp
  finally show ?case using Cons by simp
qed

lemma monthly_oil_aggregate_monthly:
  "map monthly_oil (aggregate_monthly df)
     = map (group_sum oil_volume df) (sort (remdups (map month_of df)))"
proof -
  have "map monthly_oil (aggregate_monthly df)
          = map (\<lambda>x. group_sum oil_volume df (snd x))
              (enumerate 0 (sort (remdups (map month_of df))))"
    by (simp add: aggregate_monthly_def case_prod_unfold comp_def)
  also have "\<dots> = map (group_sum oil_volume df)
                      (map snd (enumerate 0 (sort (remdups (map month_of df)))))"
    by (simp only: map_map comp_def)
  finally show ?thesis by simp
qed

lemma monthly_total:
  "sum_list (map monthly_oil (aggregate_monthly df)) = sum_list (map oil_volume df)"
proof -
  let ?keys = "sort (remdups (map month_of df))"
  have "distinct ?keys" by simp
  then have "sum_list (map (group_sum oil_volume df) ?keys)
               = (\<Sum>k\<in>set ?keys. group_sum oil_volume df k)"
    by (rule sum_list_distinct_conv_sum_set)
  also have "\<dots> = sum_list (map oil_volume df)"
    unfolding group_sum_def by (rule group_sums_total) simp_all
  finally show ?thesis
    by (simp only: monthly_oil_aggregate_monthly)
qed

lemma analyze_production_Inr:
  assumes "analyze_production mean cf df = Inr r"
  shows "monthly r = aggregate_monthly df
       \<and> fit_curve mean cf (recent_data (aggregate_monthly df))
           = Inr ((qi_fit r, Di_fit r, b_fit r), r_squared r)
       \<and> reserves (qi_fit r) (Di_fit r) (b_fit r) = Inr (future_reserves r)
       \<and> cumulative_to_date r = sum_list (map monthly_oil (aggregate_monthly df))
       \<and> eur r = np_add (Fin (cumulative_to_date r)) (future_reserves r)
       \<and> remaining_reserves r = future_reserves r
       \<and> (\<exists>last_date. column_max (map year_month (aggregate_monthly df)) = Some last_date
            \<and> make_forecast last_date (qi_fit r) (Di_fit r) (b_fit r) = Inr (forecast_df r))"
  using assms
  by (auto simp: analyze_production_def Let_def split: sum.splits option.splits prod.splits)

lemma fit_curve_Inr:
  assumes "fit_curve mean cf recent = Inr ((qi, Di, b), r2)"
  shows "\<exists>first rest. recent = first # rest
       \<and> cf (hyperbolic_decline NpScalar) (fit_times recent) (fit_volumes recent)
            (monthly_oil first, 1 / 10, 0) ((Fin 0, Fin 0, Fin 0), (PInf, Fin 1, Fin 2)) 10000
           = Inr (qi, Di, b)
       \<and> goodness_of_fit mean (fit_times recent) (fit_volumes recent) qi Di b = Inr r2"
  using assms
  by (auto simp: fit_curve_def Let_def split: list.splits sum.splits prod.splits)

lemma fit_curve_completes:
  assumes "recent = first # rest"
    and "cf (hyperbolic_decline NpScalar) (fit_times recent) (fit_volumes recent)
            (monthly_oil first, 1 / 10, 0) ((Fin 0, Fin 0, Fin 0), (PInf, Fin 1, Fin 2)) 10000
           = Inr (qi, Di, b)"
  shows "\<exists>r2. goodness_of_fit mean (fit_times recent) (fit_volumes recent) qi Di b = Inr r2
            \<and> fit_curve mean cf recent = Inr ((qi, Di, b), r2)"
proof -
  obtain r2 where
    r2: "goodness_of_fit mean (fit_times recent) (fit_volumes recent) qi Di b = Inr r2"
    using goodness_of_fit_np by blast
  have "fit_curve mean cf recent = Inr ((qi, Di, b), r2)"
    using assms(2) r2 unfolding assms(1) by (simp add: fit_curve_def Let_def)
  with r2 show ?thesis by blast
qed

lemma analyze_production_succeeds:
  assumes "recent_data (aggregate_monthly df) = first # rest"
    and "cf (hyperbolic_decline NpScalar) (fit_times (first # rest)) (fit_volumes (first # rest))
            (monthly_oil first, 1 / 10, 0) ((Fin 0, Fin 0, Fin 0), (PInf, Fin 1, Fin 2)) 10000
           = Inr (qi, Di, b)"
  shows "\<exists>r. analyze_production mean cf df = Inr r"
proof -
  obtain r2 where
    fit: "fit_curve mean cf (recent_data (aggregate_monthly df)) = Inr ((qi, Di, b), r2)"
    using fit_curve_completes [OF assms(1)] assms(2) unfolding assms(1) by blast
  obtain future where future: "reserves qi Di b = Inr future"
    using reserves_np by blast
  have "aggregate_monthly df \<noteq> []"
    using assms(1) by (auto simp: recent_data_def)
  then obtain last_date where
    last: "column_max (map year_month (aggregate_monthly df)) = Some last_date"
    by (cases "aggregate_monthly df") simp_all
  obtain fc where fc: "make_forecast last_date qi Di b = Inr fc"
    using make_forecast_np by blast
  show ?thesis
    using fit future last fc by (simp add: analyze_production_def Let_def)
qed

lemma sample_window:
  assumes "70 < n"
  shows "\<exists>first rest. recent_data (aggregate_monthly (one_row_per_month n)) = first # rest
           \<and> monthly_oil first = real (length (filter (\<lambda>r. month_of r = year_month first)
                                                  (one_row_per_month n)))"
proof -
  have "length (recent_data (aggregate_monthly (one_row_per_month n))) = n - 70"
    by (simp add: recent_data_drop length_one_row_per_month)
  then obtain first rest where
    first: "recent_data (aggregate_monthly (one_row_per_month n)) = first # rest"
    using assms by (cases "recent_data (aggregate_monthly (one_row_per_month n))") simp_all
  then have "first \<in> set (aggregate_monthly (one_row_per_month n))"
    using recent_data_drop [of "one_row_per_month n"] by (metis in_set_dropD list.set_intros(1))
  then have "monthly_oil first = group_sum oil_volume (one_row_per_month n) (year_month first)"
    by (simp add: sums_aggregate_monthly)
  also have "\<dots> = real (length (filter (\<lambda>r. month_of r = year_month first)
                                     (one_row_per_month n)))"
    by (simp add: group_sum_def one_row_per_month_def filter_map comp_def sum_list_triv
          del: upt.simps)
  finally show ?thesis using first by blast
qed

lemma honours_bounds_fit_returns_feasible: "honours_bounds (fit_returns_feasible popt)"
  by (auto simp: honours_bounds_def fit_returns_feasible_def split: if_splits)

lemma analyze_sample_succeeds:
  assumes "70 < n"
  shows "\<exists>r. analyze_production mean (fit_returns_feasible (1, 1 / 20, 1 / 2))
               (one_row_per_month n) = Inr r"
proof -
  obtain first rest where
    first: "recent_data (aggregate_monthly (one_row_per_month n)) = first # rest"
    using sample_window [OF assms] by auto
  have "fit_returns_feasible (1, 1 / 20, 1 / 2) (hyperbolic_decline NpScalar)
            (fit_times (first # rest)) (fit_volumes (first # rest)) (monthly_oil first, 1 / 10, 0)
            ((Fin 0, Fin 0, Fin 0), (PInf, Fin 1, Fin 2)) 10000
           = Inr (1, 1 / 20, 1 / 2)"
    by (simp add: fit_returns_feasible_def)
  with first show ?thesis by (rule analyze_production_succeeds)
qed

text \<open>
  C6. In every run that reaches its end, \<open>eur\<close> is \<open>cumulative_to_date\<close> plus
  \<open>future_reserves\<close>, \<open>remaining_reserves\<close> is \<open>future_reserves\<close>, and
  \<open>cumulative_to_date\<close> is the sum of the oil volume over all monthly periods, which is
  the sum over all daily rows, not the sum over the fitting window.
\<close>

theorem eur_is_history_plus_future:
  assumes "analyze_production mean cf df = Inr r"
  shows "eur r = np_add (Fin (cumulative_to_date r)) (future_reserves r)
       \<and> remaining_reserves r = future_reserves r
       \<and> cumulative_to_date r = sum_list (map monthly_oil (aggregate_monthly df))
       \<and> cumulative_to_date r = sum_list (map oil_volume df)"
  using analyze_production_Inr [OF assms] by (simp add: monthly_total)

theorem eur_is_history_plus_future_witness:
  "\<exists>r. analyze_production np_mean (fit_returns_feasible (1, 1 / 20, 1 / 2))
         (one_row_per_month 71) = Inr r
      \<and> eur r = np_add (Fin (cumulative_to_date r)) (future_reserves r)
      \<and> remaining_reserves r = future_reserves r
      \<and> cumulative_to_date r = 71"
proof -
  obtain r where r: "analyze_production np_mean (fit_returns_feasible (1, 1 / 20, 1 / 2))
         (one_row_per_month 71) = Inr r"
    using analyze_sample_succeeds [of 71] by auto
  have "sum_list (map oil_volume (one_row_per_month 71)) = 71"
    by (simp add: one_row_per_month_def comp_def sum_list_triv del: upt.simps)
  then show ?thesis
    using r eur_is_history_plus_future [OF r] by auto
qed

section \<open>The fitted parameters\<close>

text \<open>
  C10. In every run that reaches its end, the fitted triple is what the optimizer
  returned on the call with the window's times and volumes, the initial guess (first
  volume of the window, 0.1, 0), the bounds \<open>([0, 0, 0], [inf, 1, 2])\<close> and
  \<open>maxfev = 10000\<close>. If the optimizer keeps its result within the bounds it is given,
  then \<open>qi \<ge> 0\<close>, \<open>0 \<le> Di \<le> 1\<close> and \<open>0 \<le> b \<le> 2\<close>, and the reserves and the forecast are
  computed from these same three numbers.
\<close>

theorem fitted_parameters_within_bounds:
  assumes "honours_bounds cf" and "analyze_production mean cf df = Inr r"
  shows "(\<exists>first rest. recent_data (aggregate_monthly df) = first # rest
            \<and> cf (hyperbolic_decline NpScalar)
                 (fit_times (recent_data (aggregate_monthly df)))
                 (fit_volumes (recent_data (aggregate_monthly df)))
                 (monthly_oil first, 1 / 10, 0)
                 ((Fin 0, Fin 0, Fin 0), (PInf, Fin 1, Fin 2)) 10000
                = Inr (qi_fit r, Di_fit r, b_fit r))
       \<and> 0 \<le> qi_fit r \<and> 0 \<le> Di_fit r \<and> Di_fit r \<le> 1 \<and> 0 \<le> b_fit r \<and> b_fit r \<le> 2
       \<and> reserves (qi_fit r) (Di_fit r) (b_fit r) = Inr (future_reserves r)
       \<and> (\<exists>last_date. make_forecast last_date (qi_fit r) (Di_fit r) (b_fit r)
                         = Inr (forecast_df r))"
proof -
  note run = analyze_production_Inr [OF assms(2)]
  from run have "fit_curve mean cf (recent_data (aggregate_monthly df))
                   = Inr ((qi_fit r, Di_fit r, b_fit r), r_squared r)"
    by blast
  then obtain first rest where
    window: "recent_data (aggregate_monthly df) = first # rest"
    and call: "cf (hyperbolic_decline NpScalar)
                 (fit_times (recent_data (aggregate_monthly df)))
                 (fit_volumes (recent_data (aggregate_monthly df)))
                 (monthly_oil first, 1 / 10, 0)
                 ((Fin 0, Fin 0, Fin 0), (PInf, Fin 1, Fin 2)) 10000
                = Inr (qi_fit r, Di_fit r, b_fit r)"
    using fit_curve_Inr by blast
  from assms(1) call have "within_bounds ((Fin 0, Fin 0, Fin 0), (PInf, Fin 1, Fin 2))
                        (qi_fit r, Di_fit r, b_fit r)"
    unfolding honours_bounds_def by blast
  then have "0 \<le> qi_fit r \<and> 0 \<le> Di_fit r \<and> Di_fit r \<le> 1 \<and> 0 \<le> b_fit r \<and> b_fit r \<le> 2"
    by simp
  with run window call show ?thesis by blast
qed

theorem fitted_parameters_within_bounds_witness:
  "honours_bounds (fit_returns_feasible (1, 1 / 20, 1 / 2))
   \<and> (\<exists>r. analyze_production np_mean (fit_returns_feasible (1, 1 / 20, 1 / 2))
            (one_row_per_month 90) = Inr r
          \<and> qi_fit r = 1 \<and> Di_fit r = 1 / 20 \<and> b_fit r = 1 / 2
          \<and> 0 \<le> qi_fit r \<and> 0 \<le> Di_fit r \<and> Di_fit r \<le> 1 \<and> 0 \<le> b_fit r \<and> b_fit r \<le> 2)"
proof -
  obtain r where r: "analyze_production np_mean (fit_returns_feasible (1, 1 / 20, 1 / 2))
            (one_row_per_month 90) = Inr r"
    using analyze_sample_succeeds [of 90] by auto
  note bounded = fitted_parameters_within_bounds [OF honours_bounds_fit_returns_feasible r]
  then have "\<exists>first rest.
      recent_data (aggregate_monthly (one_row_per_month 90)) = first # rest
    \<and> fit_returns_feasible (1, 1 / 20, 1 / 2) (hyperbolic_decline NpScalar)
        (fit_times (recent_data (aggregate_monthly (one_row_per_month 90))))
        (fit_volumes (recent_data (aggregate_monthly (one_row_per_month 90))))
        (monthly_oil first, 1 / 10, 0)
        ((Fin 0, Fin 0, Fin 0), (PInf, Fin 1, Fin 2)) 10000
       = Inr (qi_fit r, Di_fit r, b_fit r)"
    by (rule conjunct1)
  then have "qi_fit r = 1 \<and> Di_fit r = 1 / 20 \<and> b_fit r = 1 / 2"
    by (auto simp: fit_returns_feasible_def)
  moreover from bounded
  have "0 \<le> qi_fit r \<and> 0 \<le> Di_fit r \<and> Di_fit r \<le> 1 \<and> 0 \<le> b_fit r \<and> b_fit r \<le> 2"
    by simp
  ultimately show ?thesis
    using r honours_bounds_fit_returns_feasible by auto
qed

section \<open>The forecast\<close>








section \<open>A window without variance\<close>

lemma fold_np_add_zeros:
  "\<forall>x\<in>set xs. x = Fin 0 \<Longrightarrow> fold (\<lambda>x acc. np_add acc x) xs (Fin a) = Fin a"
  by (induction xs) simp_all

lemma ss_tot_exact_mean:
  assumes "\<forall>x\<in>set q. x = c" and "mean q = Fin c"
  shows "ss_tot_of mean q = Fin 0"
proof -
  have "\<forall>x\<in>set (map (\<lambda>qv. np_square (np_sub (Fin qv) (mean q))) q). x = Fin 0"
    using assms by (auto simp: np_square_def np_sub_def)
  then show ?thesis
    unfolding ss_tot_of_def np_sum_def by (rule fold_np_add_zeros)
qed

lemma not_negative_square: "not_negative (np_square x)"
  by (cases x) (simp_all add: np_square_def)

lemma not_negative_add: "not_negative x \<Longrightarrow> not_negative y \<Longrightarrow> not_negative (np_add x y)"
  by (cases x; cases y) simp_all

lemma not_negative_fold:
  "\<forall>x\<in>set xs. not_negative x \<Longrightarrow> not_negative acc
     \<Longrightarrow> not_negative (fold (\<lambda>x acc. np_add acc x) xs acc)"
  by (induction xs arbitrary: acc) (simp_all add: not_negative_add)

lemma not_negative_ss_res: "not_negative (ss_res_of q q_pred)"
  unfolding ss_res_of_def np_sum_def
  by (rule not_negative_fold) (auto simp: not_negative_square)

lemma r_squared_zero_variance:
  assumes "not_negative x"
  shows "np_sub (Fin 1) (np_div x (Fin 0)) = NaN \<or> np_sub (Fin 1) (np_div x (Fin 0)) = NInf"
  using assms by (cases x) (simp_all add: np_sub_def)

lemma np_pow_one: "np_pow 1 e = Fin 1"
  by (cases e) simp_all

lemma constant_prediction:
  assumes "b * Di = 0"
  shows "hyperbolic_decline NpScalar (map Fin t) qi Di b = Inr (map (\<lambda>ti. Fin qi) t)"
proof -
  have "np_div (Fin qi) (np_power (np_add (Fin 1) (np_mul (Fin 0) (Fin ti))) ex) = Fin qi"
    for ti ex
    by (simp add: np_pow_one)
  then show ?thesis
    by (simp only: hyperbolic_decline_np assms map_map comp_def)
qed

lemma ss_res_exact_fit:
  assumes "\<forall>x\<in>set q. x = c"
  shows "ss_res_of q (map (\<lambda>ti. Fin c) t) = Fin 0"
proof -
  have "\<forall>x\<in>set (map (\<lambda>(qv, pv). np_square (np_sub (Fin qv) pv))
                   (zip q (map (\<lambda>ti. Fin c) t))). x = Fin 0"
    using assms by (auto simp: np_square_def np_sub_def in_set_zip)
  then show ?thesis
    unfolding ss_res_of_def np_sum_def by (rule fold_np_add_zeros)
qed

text \<open>
  C2, as claimed: a window of equal volumes makes the fit fail with a
  \<open>DegenerateDataError\<close> and never yields a NaN \<open>r_squared\<close>. With three periods of
  volume 5, whose mean is computed as 5, and an optimizer that reports \<open>qi = 5\<close>,
  \<open>Di = 0\<close>, \<open>b = 1\<close> the fit step completes, and \<open>r_squared\<close> is \<open>1 - 0/0\<close>, NaN.
\<close>

theorem constant_window_fit_succeeds:
  "fit_curve np_mean (fit_returns (5, 0, 1)) constant_window = Inr ((5, 0, 1), NaN)"
  by (simp add: fit_curve_def fit_returns_def constant_window_def fit_times_def fit_volumes_def
      goodness_of_fit_def hyperbolic_decline_np ss_res_of_def ss_tot_of_def np_sum_def
      np_square_def np_sub_def np_mean_def)

text \<open>
  C2, amended: for every non-empty window of equal volumes the script raises nothing of
  its own, there being no variance check and no \<open>DegenerateDataError\<close>: whenever the
  optimizer returns parameters, the fit step completes with an \<open>r_squared\<close>. When
  \<open>np.mean\<close> returns the common volume exactly, the total sum of squares is 0 and
  \<open>r_squared\<close> is NaN or minus infinity; it is NaN when the fitted curve is that constant
  (\<open>qi\<close> the common volume and \<open>b * Di = 0\<close>).
\<close>

theorem constant_window_r_squared:
  assumes "recent \<noteq> []" and "\<forall>p\<in>set recent. monthly_oil p = c"
    and "cf (hyperbolic_decline NpScalar) (fit_times recent) (fit_volumes recent) (c, 1 / 10, 0)
           ((Fin 0, Fin 0, Fin 0), (PInf, Fin 1, Fin 2)) 10000 = Inr (qi, Di, b)"
  shows "\<exists>r2. fit_curve mean cf recent = Inr ((qi, Di, b), r2)
            \<and> (mean (fit_volumes recent) = Fin c \<longrightarrow> r2 = NaN \<or> r2 = NInf)
            \<and> (mean (fit_volumes recent) = Fin c \<and> qi = c \<and> b * Di = 0 \<longrightarrow> r2 = NaN)"
proof -
  obtain first rest where recent: "recent = first # rest"
    using assms(1) by (cases recent) simp_all
  then have first: "monthly_oil first = c" using assms(2) by simp
  have q: "\<forall>x\<in>set (fit_volumes recent). x = c"
    using assms(2) by (simp add: fit_volumes_def)
  obtain q_pred where q_pred:
    "hyperbolic_decline NpScalar (map Fin (fit_times recent)) qi Di b = Inr q_pred"
    by (simp add: hyperbolic_decline_np)
  define r2 where
    "r2 = np_sub (Fin 1) (np_div (ss_res_of (fit_volumes recent) q_pred)
                                  (ss_tot_of mean (fit_volumes recent)))"
  have gof: "goodness_of_fit mean (fit_times recent) (fit_volumes recent) qi Di b = Inr r2"
    by (simp add: goodness_of_fit_def q_pred Let_def r2_def)
  have fit: "fit_curve mean cf recent = Inr ((qi, Di, b), r2)"
    using assms(3) gof first by (simp add: fit_curve_def recent Let_def)
  have exact: "r2 = NaN \<or> r2 = NInf" if "mean (fit_volumes recent) = Fin c"
  proof -
    have "ss_tot_of mean (fit_volumes recent) = Fin 0"
      using q that by (rule ss_tot_exact_mean)
    then show ?thesis
      unfolding r2_def using r_squared_zero_variance [OF not_negative_ss_res] by simp
  qed
  have flat: "r2 = NaN" if "mean (fit_volumes recent) = Fin c" and "qi = c" and "b * Di = 0"
  proof -
    have "q_pred = map (\<lambda>ti. Fin c) (fit_times recent)"
      using q_pred constant_prediction [OF that(3), of "fit_times recent" qi] that(2) by simp
    then have "ss_res_of (fit_volumes recent) q_pred = Fin 0"
      using ss_res_exact_fit [OF q] by simp
    moreover have "ss_tot_of mean (fit_volumes recent) = Fin 0"
      using q that(1) by (rule ss_tot_exact_mean)
    ultimately show ?thesis
      by (simp add: r2_def np_sub_def)
  qed
  from fit exact flat show ?thesis by blast
qed

theorem constant_window_r_squared_witness:
  "constant_window \<noteq> []
   \<and> np_mean (fit_volumes constant_window) = Fin 5
   \<and> fit_curve np_mean (fit_returns (5, 1 / 10, 1)) constant_window
        = Inr ((5, 1 / 10, 1), NInf)"
proof -
  have ne: "constant_window \<noteq> []"
    and same: "\<forall>p\<in>set constant_window. monthly_oil p = 5"
    and mean: "np_mean (fit_volumes constant_window) = Fin 5"
    by (simp_all add: constant_window_def fit_volumes_def np_mean_def)
  have "fit_returns (5, 1 / 10, 1) (hyperbolic_decline NpScalar) (fit_times constant_window)
          (fit_volumes constant_window) (5, 1 / 10, 0)
          ((Fin 0, Fin 0, Fin 0), (PInf, Fin 1, Fin 2)) 10000 = Inr (5, 1 / 10, 1)"
    by (simp add: fit_returns_def)
  then have "\<exists>r2. fit_curve np_mean (fit_returns (5, 1 / 10, 1)) constant_window
                 = Inr ((5, 1 / 10, 1), r2)
            \<and> (np_mean (fit_volumes constant_window) = Fin 5 \<longrightarrow> r2 = NaN \<or> r2 = NInf)
            \<and> (np_mean (fit_volumes constant_window) = Fin 5 \<and> (5::real) = 5
                 \<and> (1::real) * (1 / 10) = 0 \<longrightarrow> r2 = NaN)"
    using ne same
    by (rule constant_window_r_squared
          [of constant_window 5 "fit_returns (5, 1 / 10, 1)" 5 "1 / 10" 1 np_mean, rotated 2])
  then obtain r2 where
    fit: "fit_curve np_mean (fit_returns (5, 1 / 10, 1)) constant_window
            = Inr ((5, 1 / 10, 1), r2)"
    and either: "r2 = NaN \<or> r2 = NInf"
    using mean by auto
  have "fit_curve np_mean (fit_returns (5, 1 / 10, 1)) constant_window
          \<noteq> Inr ((5, 1 / 10, 1), NaN)"
    by (simp add: fit_curve_def fit_returns_def constant_window_def fit_times_def
        fit_volumes_def goodness_of_fit_def hyperbolic_decline_np ss_res_of_def ss_tot_of_def
        np_sum_def np_square_def np_sub_def np_mean_def)
  with fit either have "r2 = NInf" by auto
  with fit ne mean show ?thesis by simp
qed

end
